theory Spec2Isabelle
  imports Main
begin

section \<open>The compilescss management command\<close>

text \<open>
  A shallow embedding of \<^verbatim>\<open>sass_processor/management/commands/compilescss.py\<close>.
  The command object and the world it acts on (standard output, the files on disk) are
  one record that every method takes and returns. The collaborators the command does not
  own (the template engines, the template parser, the file resolver, the SASS compiler,
  the interpreter's text encoding) are fields of an environment record.
\<close>

subsection \<open>Exceptions\<close>

text \<open>
  An exception is its class and its message (\<^verbatim>\<open>str(e)\<close>). The classes are the ones
  the command names or meets; \<open>OtherException\<close> is any further subclass of
  \<^verbatim>\<open>Exception\<close>.
\<close>

datatype kind =
    ImproperlyConfigured
  | ImportError
  | AttributeError
  | TypeError
  | IOError
  | TemplateSyntaxError
  | TemplateDoesNotExist
  | UnicodeDecodeError
  | UnicodeEncodeError
  | UnboundLocalError
  | RuntimeError
  | CompileError
  | OSError
  | OtherException

type_synonym exn = "kind \<times> string"

subsection \<open>Strings and paths\<close>

definition newline :: char where
  "newline = CHR 0x0A"

definition startswith :: "string \<Rightarrow> string \<Rightarrow> bool" where
  "startswith s p = (take (length p) s = p)"

definition endswith :: "string \<Rightarrow> string \<Rightarrow> bool" where
  "endswith s p = (length p \<le> length s \<and> drop (length s - length p) s = p)"

text \<open>
  \<^verbatim>\<open>fnmatch(name, pat)\<close> on POSIX, where \<^verbatim>\<open>normcase\<close> is the identity: \<^verbatim>\<open>*\<close> matches
  any run of characters, \<^verbatim>\<open>?\<close> any one character, every other character itself. Bracket
  classes are left out: the patterns this command builds are \<^verbatim>\<open>*\<close> followed by one
  letter.
\<close>

fun fnmatch :: "string \<Rightarrow> string \<Rightarrow> bool" where
  "fnmatch [] [] = True"
| "fnmatch (c # cs) [] = False"
| "fnmatch [] (p # ps) = (p = CHR ''*'' \<and> fnmatch [] ps)"
| "fnmatch (c # cs) (p # ps) =
     (if p = CHR ''*'' then fnmatch (c # cs) ps \<or> fnmatch cs (p # ps)
      else if p = CHR ''?'' then fnmatch cs ps
      else c = p \<and> fnmatch cs ps)"

text \<open>\<^verbatim>\<open>os.path.join(a, b)\<close> of posixpath.\<close>

definition path_join :: "string \<Rightarrow> string \<Rightarrow> string" where
  "path_join a b =
     (if startswith b ''/'' then b
      else if a = [] \<or> endswith a ''/'' then a @ b
      else a @ ''/'' @ b)"

text \<open>
  \<^verbatim>\<open>os.path.splitext(p)\<close> of posixpath: the extension starts at the last dot of the
  last path component, unless only dots precede it there.
\<close>

fun rfind :: "char \<Rightarrow> string \<Rightarrow> nat option" where
  "rfind c [] = None"
| "rfind c (x # xs) =
     (case rfind c xs of
        Some i \<Rightarrow> Some (Suc i)
      | None \<Rightarrow> if x = c then Some 0 else None)"

definition splitext :: "string \<Rightarrow> string \<times> string" where
  "splitext p =
     (let filenameIndex = (case rfind CHR ''/'' p of None \<Rightarrow> 0 | Some i \<Rightarrow> Suc i)
      in case rfind CHR ''.'' p of
           None \<Rightarrow> (p, [])
         | Some dotIndex \<Rightarrow>
             if filenameIndex \<le> dotIndex
                \<and> (\<exists>c \<in> set (take (dotIndex - filenameIndex) (drop filenameIndex p)). c \<noteq> CHR ''.'')
             then (take dotIndex p, drop dotIndex p)
             else (p, []))"

text \<open>\<^verbatim>\<open>'{0}'.format(n)\<close> for a length: the decimal numeral.\<close>

fun str_nat :: "nat \<Rightarrow> string" where
  "str_nat n =
     (if n < 10 then [char_of (48 + n)]
      else str_nat (n div 10) @ [char_of (48 + n mod 10)])"

subsection \<open>Text and its encoding\<close>

text \<open>
  Compiled CSS is text: a list of Unicode code points. A file holds bytes. The command
  opens the artifact with \<^verbatim>\<open>open(destpath, 'w')\<close> and names no encoding, so the text is
  encoded with the interpreter's default codec; \<open>None\<close> is \<^verbatim>\<open>UnicodeEncodeError\<close>.
\<close>

type_synonym css_text = "nat list"
type_synonym bytes = "nat list"

datatype codec = Ascii | Latin1 | Utf8

definition encode_char :: "codec \<Rightarrow> nat \<Rightarrow> bytes option" where
  "encode_char c u =
     (case c of
        Ascii \<Rightarrow> if u < 128 then Some [u] else None
      | Latin1 \<Rightarrow> if u < 256 then Some [u] else None
      | Utf8 \<Rightarrow>
          if u < 128 then Some [u]
          else if u < 2048 then Some [192 + u div 64, 128 + u mod 64]
          else if u < 65536 then
            (if 55296 \<le> u \<and> u < 57344 then None
             else Some [224 + u div 4096, 128 + (u div 64) mod 64, 128 + u mod 64])
          else if u < 1114112 then
            Some [240 + u div 262144, 128 + (u div 4096) mod 64,
                  128 + (u div 64) mod 64, 128 + u mod 64]
          else None)"

fun encode_text :: "codec \<Rightarrow> css_text \<Rightarrow> bytes option" where
  "encode_text c [] = Some []"
| "encode_text c (u # us) =
     (case encode_char c u of
        None \<Rightarrow> None
      | Some b \<Rightarrow> (case encode_text c us of None \<Rightarrow> None | Some bs \<Rightarrow> Some (b @ bs)))"

subsection \<open>Template nodes\<close>

text \<open>
  Modelled from the spec: the class \<^verbatim>\<open>SassSrcNode\<close> lives in
  \<^verbatim>\<open>sass_processor/templatetags/sass_tags.py\<close>, which is not among the sources. The spec
  gives a reference three attributes: \<^verbatim>\<open>path\<close>, \<^verbatim>\<open>include_paths\<close> and \<^verbatim>\<open>is_sass\<close>.
  Every other template node (and a parsed template itself) is an opaque object, told
  apart by an identifier.
\<close>

datatype node =
    SassSrcNode string "string list" bool
  | Node nat

fun isinstance_SassSrcNode :: "node \<Rightarrow> bool" where
  "isinstance_SassSrcNode (SassSrcNode p ips s) = True"
| "isinstance_SassSrcNode (Node i) = False"

subsection \<open>The environment\<close>

text \<open>
  A template loader as \<^verbatim>\<open>find_templates\<close> sees it: what asking it for its template
  sources gives (the paths, or the exception raised on the way), and its \<^verbatim>\<open>loaders\<close>
  attribute when it wraps other loaders.
\<close>

datatype loader = Loader "exn + string list" "loader list option"

fun get_template_sources :: "loader \<Rightarrow> exn + string list" where
  "get_template_sources (Loader r ls) = r"

fun loaders_attr :: "loader \<Rightarrow> loader list option" where
  "loaders_attr (Loader r ls) = ls"

text \<open>A directory: the names of its files, and its subdirectories by name.\<close>

datatype dir = Dir "string list" "(string \<times> dir) list"

record env =
  TEMPLATE_LOADERS :: "string list"
  SASS_TEMPLATE_EXTS :: "string list option"
  SASS_OUTPUT_STYLE :: "string option"
  engines :: "loader list list"
  template_dirs :: "string \<Rightarrow> dir option"
  parse :: "string \<Rightarrow> exn + node"
  get_nodelist :: "node \<Rightarrow> node \<Rightarrow> exn + node list"
  recursion_limit :: nat
  find_file :: "string \<Rightarrow> string option"
  sass_compile :: "(string \<Rightarrow> bytes option) \<Rightarrow> string list \<Rightarrow> string \<Rightarrow> string \<Rightarrow> exn + css_text"
  default_encoding :: codec
  read_only :: "string \<Rightarrow> bool"
  hash_key :: "string \<Rightarrow> nat"

text \<open>The two settings \<^verbatim>\<open>__init__\<close> reads with a default.\<close>

definition template_exts :: "env \<Rightarrow> string list" where
  "template_exts E = (case SASS_TEMPLATE_EXTS E of None \<Rightarrow> [''.html''] | Some xs \<Rightarrow> xs)"

definition output_style :: "env \<Rightarrow> string" where
  "output_style E = (case SASS_OUTPUT_STYLE E of None \<Rightarrow> ''compact'' | Some x \<Rightarrow> x)"

subsection \<open>Finding the templates\<close>

definition get_loaders :: "env \<Rightarrow> loader list" where
  "get_loaders E =
     concat (map (\<lambda>l. case loaders_attr l of Some ls \<Rightarrow> ls | None \<Rightarrow> [l])
                 (concat (engines E)))"

text \<open>
  \<^verbatim>\<open>os.walk(top)\<close>, top-down: one triple for the directory, then the walks of its
  subdirectories. A path that is no directory gives nothing.
\<close>

fun os_walk :: "string \<Rightarrow> dir \<Rightarrow> (string \<times> string list \<times> string list) list" where
  "os_walk topdir (Dir files subs) =
     (topdir, map fst subs, files)
     # concat (map (\<lambda>sub. os_walk (path_join topdir (fst sub)) (snd sub)) subs)"

definition walk_path :: "env \<Rightarrow> string \<Rightarrow> (string \<times> string list \<times> string list) list" where
  "walk_path E path = (case template_dirs E path of None \<Rightarrow> [] | Some d \<Rightarrow> os_walk path d)"

text \<open>
  A Python set is modelled as a list without duplicates. The order in which Python
  iterates a set is not that of insertion: it follows the hashes of the strings, which
  differ from one process to the next. So where the command iterates a set, the model
  sorts the list by the hash key of the process (\<^verbatim>\<open>hash_key\<close>, a field of the
  environment): every order of the elements is the iteration order under some key.
\<close>

definition set_iteration :: "env \<Rightarrow> string list \<Rightarrow> string list" where
  "set_iteration E xs = sort_key (hash_key E) xs"

text \<open>
  The paths the loaders give. The order in which \<^verbatim>\<open>find_templates\<close> then iterates
  them does not show: what it collects from them is a set again.
\<close>

fun loader_paths :: "loader list \<Rightarrow> string list \<Rightarrow> exn + string list" where
  "loader_paths [] paths = Inr paths"
| "loader_paths (l # ls) paths =
     (case get_template_sources l of
        Inr srcs \<Rightarrow> loader_paths ls (remdups (paths @ srcs))
      | Inl e \<Rightarrow>
          if fst e = ImportError \<or> fst e = AttributeError \<or> fst e = TypeError
          then loader_paths ls paths
          else Inl e)"

definition extensions :: string where
  "extensions = ''html''"

definition template_names :: "(string \<times> string list \<times> string list) \<Rightarrow> string list" where
  "template_names t =
     (case t of (root, dirs, files) \<Rightarrow>
        map (path_join root)
            (filter (\<lambda>name. \<not> startswith name ''.''
                             \<and> (\<exists>glob \<in> set extensions. fnmatch name (''*'' @ [glob])))
                    files))"

definition find_templates :: "env \<Rightarrow> exn + string list" where
  "find_templates E =
     (if TEMPLATE_LOADERS E = [] then
        Inl (ImproperlyConfigured, ''You must set TEMPLATE_LOADERS in your settings.'')
      else case loader_paths (get_loaders E) [] of
        Inl e \<Rightarrow> Inl e
      | Inr paths \<Rightarrow>
          if paths = [] then
            Inl (ImproperlyConfigured,
                 ''No template paths found. None of the configured template loaders provided template paths.'')
          else
            let templates =
                  remdups (concat (map (\<lambda>path. concat (map template_names (walk_path E path))) paths))
            in if templates = [] then
                 Inl (ImproperlyConfigured,
                      ''No templates found. Make sure your TEMPLATE_LOADERS and TEMPLATE_DIRS settings are correct.'')
               else Inr templates)"

subsection \<open>The command and its world\<close>

text \<open>
  The calls the command makes that touch what is outside it, in the order made; the
  frame properties are stated on this log.
\<close>

datatype call =
    SassCompile "string list" string string
  | OpenForWriting string
  | OsRemove string

record state =
  show_errors :: nat
  delete_files :: bool
  compiled_files :: "string list"
  stdout :: "string list"
  files :: "string \<Rightarrow> bytes option"
  calls :: "call list"

definition stdout_write :: "string \<Rightarrow> state \<Rightarrow> state" where
  "stdout_write msg s = s\<lparr>stdout := stdout s @ [msg]\<rparr>"

definition quote :: string where
  "quote = [CHR 0x27]"

definition backtick :: string where
  "backtick = [CHR 0x60]"

definition css_path :: "string \<Rightarrow> string" where
  "css_path sass_filename = fst (splitext sass_filename) @ ''.css''"

subsection \<open>Walking the nodes of a template\<close>

text \<open>
  \<^verbatim>\<open>list(self.walk_nodes(template))\<close>: the nodes the generator yields, or the first
  exception raised while it runs. The generator calls itself once per level of the
  tree, and the interpreter bounds that depth: at the bound it raises
  \<^verbatim>\<open>RuntimeError\<close>, an \<^verbatim>\<open>Exception\<close> like any other.
\<close>

fun collect :: "(exn + 'a list) list \<Rightarrow> exn + 'a list" where
  "collect [] = Inr []"
| "collect (Inl e # rs) = Inl e"
| "collect (Inr xs # rs) = (case collect rs of Inl e \<Rightarrow> Inl e | Inr ys \<Rightarrow> Inr (xs @ ys))"

fun walk_nodes :: "env \<Rightarrow> nat \<Rightarrow> node \<Rightarrow> node option \<Rightarrow> exn + node list" where
  "walk_nodes E 0 node original = Inl (RuntimeError, ''maximum recursion depth exceeded'')"
| "walk_nodes E (Suc depth) node original =
     (let original = (case original of None \<Rightarrow> node | Some orig \<Rightarrow> orig)
      in case get_nodelist E node original of
           Inl e \<Rightarrow> Inl e
         | Inr nodelist \<Rightarrow>
             collect (map (\<lambda>n. case n of
                                 SassSrcNode p ips is_sass \<Rightarrow> Inr (if is_sass then [n] else [])
                               | Node i \<Rightarrow> walk_nodes E depth n (Some original))
                          nodelist))"

subsection \<open>Compiling and deleting\<close>

definition compile :: "env \<Rightarrow> node \<Rightarrow> state \<Rightarrow> exn option \<times> state" where
  "compile E node s =
     (case node of
        Node i \<Rightarrow> (Some (AttributeError, ''path''), s)
      | SassSrcNode path include_paths is_sass \<Rightarrow>
          (case find_file E path of
             None \<Rightarrow> (None, s)
           | Some sass_filename \<Rightarrow>
               if sass_filename = [] \<or> sass_filename \<in> set (compiled_files s) then (None, s)
               else
                 let s1 = s\<lparr>calls := calls s
                              @ [SassCompile include_paths sass_filename (output_style E)]\<rparr>
                 in case sass_compile E (files s) include_paths sass_filename (output_style E) of
                      Inl e \<Rightarrow> (Some e, s1)
                    | Inr content \<Rightarrow>
                        let destpath = css_path sass_filename
                        in if read_only E destpath then (Some (IOError, destpath), s1)
                           else
                             let s2 = s1\<lparr>files := (files s1)(destpath \<mapsto> []),
                                         calls := calls s1 @ [OpenForWriting destpath]\<rparr>
                             in case encode_text (default_encoding E) content of
                                  None \<Rightarrow> (Some (UnicodeEncodeError, destpath), s2)
                                | Some data \<Rightarrow>
                                    (None,
                                     stdout_write
                                       (''Compiled SASS/SCSS file: '' @ quote @ path @ quote @ [newline])
                                       (s2\<lparr>files := (files s2)(destpath \<mapsto> data),
                                           compiled_files := compiled_files s2 @ [sass_filename]\<rparr>))))"

definition delete_file :: "env \<Rightarrow> node \<Rightarrow> state \<Rightarrow> exn option \<times> state" where
  "delete_file E node s =
     (case node of
        Node i \<Rightarrow> (Some (AttributeError, ''path''), s)
      | SassSrcNode path include_paths is_sass \<Rightarrow>
          (case find_file E path of
             None \<Rightarrow> (None, s)
           | Some sass_filename \<Rightarrow>
               if sass_filename = [] then (None, s)
               else
                 let destpath = css_path sass_filename
                 in if files s destpath \<noteq> None then
                      (let s1 = s\<lparr>calls := calls s @ [OsRemove destpath]\<rparr>
                       in if read_only E destpath then (Some (OSError, destpath), s1)
                          else
                            (None,
                             stdout_write (''Deleted '' @ quote @ destpath @ quote @ [newline])
                               (s1\<lparr>files := (files s1)(destpath := None),
                                   compiled_files := compiled_files s1 @ [sass_filename]\<rparr>)))
                    else (None, s)))"

subsection \<open>One template, and the whole run\<close>

fun process_nodes :: "env \<Rightarrow> node list \<Rightarrow> state \<Rightarrow> exn option \<times> state" where
  "process_nodes E [] s = (None, s)"
| "process_nodes E (node # nodes) s =
     (case (if delete_files s then delete_file E node s else compile E node s) of
        (Some e, s') \<Rightarrow> (Some e, s')
      | (None, s') \<Rightarrow> process_nodes E nodes s')"

text \<open>
  The second \<^verbatim>\<open>try\<close> of \<^verbatim>\<open>parse_template\<close>. The local \<^verbatim>\<open>template\<close> is bound only when
  the parse returned; reading it unbound raises \<^verbatim>\<open>UnboundLocalError\<close> inside the
  \<^verbatim>\<open>try\<close>.
\<close>

definition walk_and_process :: "env \<Rightarrow> string \<Rightarrow> node option \<Rightarrow> state \<Rightarrow> exn option \<times> state" where
  "walk_and_process E template_name template s =
     (case (case template of
              None \<Rightarrow> Inl (UnboundLocalError,
                           ''local variable '' @ quote @ ''template'' @ quote
                           @ '' referenced before assignment'')
            | Some t \<Rightarrow> walk_nodes E (recursion_limit E) t None) of
        Inl e \<Rightarrow>
          (None,
           if show_errors s \<noteq> 0
           then stdout_write (''Error parsing template '' @ template_name @ '': '' @ snd e @ [newline]) s
           else s)
      | Inr nodes \<Rightarrow> process_nodes E nodes s)"

definition parse_template :: "env \<Rightarrow> string \<Rightarrow> state \<Rightarrow> exn option \<times> state" where
  "parse_template E template_name s =
     (case parse E template_name of
        Inr template \<Rightarrow> walk_and_process E template_name (Some template) s
      | Inl e \<Rightarrow>
          if fst e = IOError then
            (None,
             if show_errors s \<noteq> 0
             then stdout_write (''Unreadable template at: '' @ template_name @ [newline]) s
             else s)
          else if fst e = TemplateSyntaxError then
            (None,
             if show_errors s \<noteq> 0
             then stdout_write (''Invalid template '' @ template_name @ '': '' @ snd e @ [newline]) s
             else s)
          else if fst e = TemplateDoesNotExist then
            (None,
             if show_errors s \<noteq> 0
             then stdout_write (''Non-existent template at: '' @ template_name @ [newline]) s
             else s)
          else if fst e = UnicodeDecodeError then
            walk_and_process E template_name None
              (if show_errors s \<noteq> 0
               then stdout_write (''UnicodeDecodeError while trying to read template ''
                                  @ template_name @ [newline]) s
               else s)
          else (Some e, s))"

fun parse_templates :: "env \<Rightarrow> string list \<Rightarrow> state \<Rightarrow> exn option \<times> state" where
  "parse_templates E [] s = (None, s)"
| "parse_templates E (template_name # templates) s =
     (case parse_template E template_name s of
        (Some e, s') \<Rightarrow> (Some e, s')
      | (None, s') \<Rightarrow> parse_templates E templates s')"

record options =
  opt_show_errors :: bool
  opt_delete_files :: bool

definition summary_line :: "bool \<Rightarrow> nat \<Rightarrow> string" where
  "summary_line deleting n =
     (if deleting
      then ''Successfully deleted '' @ str_nat n
           @ '' previously generated '' @ backtick @ ''*.css'' @ backtick @ '' files.''
      else ''Successfully compiled '' @ str_nat n @ '' referred SASS/SCSS files.'')"

definition init_state :: "options \<Rightarrow> (string \<Rightarrow> bytes option) \<Rightarrow> state" where
  "init_state opts disk =
     \<lparr>show_errors = (if opt_show_errors opts then 1 else 0),
      delete_files = opt_delete_files opts,
      compiled_files = [],
      stdout = [],
      files = disk,
      calls = []\<rparr>"

definition handle :: "env \<Rightarrow> options \<Rightarrow> (string \<Rightarrow> bytes option) \<Rightarrow> exn option \<times> state" where
  "handle E opts disk =
     (let s = init_state opts disk
      in case find_templates E of
           Inl e \<Rightarrow> (Some e, s)
         | Inr templates \<Rightarrow>
             (case parse_templates E (set_iteration E templates) s of
                (Some e, s') \<Rightarrow> (Some e, s')
              | (None, s') \<Rightarrow>
                  (None,
                   stdout_write (summary_line (delete_files s') (length (compiled_files s'))) s')))"

subsection \<open>Notions the properties are stated with\<close>

text \<open>
  The nodes of a template's tree: the nodes of the node list the parser gives for the
  root, and of the node lists it gives for those, at any depth.
\<close>

inductive in_tree :: "env \<Rightarrow> node \<Rightarrow> node \<Rightarrow> node \<Rightarrow> bool" for E :: env and original :: node where
  child: "get_nodelist E root original = Inr nodelist \<Longrightarrow> n \<in> set nodelist
          \<Longrightarrow> in_tree E original root n"
| deeper: "get_nodelist E root original = Inr nodelist \<Longrightarrow> c \<in> set nodelist
           \<Longrightarrow> in_tree E original c n \<Longrightarrow> in_tree E original root n"

code_pred in_tree .

text \<open>
  Every node list the walker asks for below \<open>root\<close> is given without an exception, and
  the tree is at most \<open>depth\<close> levels deep.
\<close>

fun expandable :: "env \<Rightarrow> node \<Rightarrow> nat \<Rightarrow> node \<Rightarrow> bool" where
  "expandable E original 0 root = False"
| "expandable E original (Suc depth) root =
     (case get_nodelist E root original of
        Inl e \<Rightarrow> False
      | Inr nodelist \<Rightarrow>
          list_all (\<lambda>c. isinstance_SassSrcNode c \<or> expandable E original depth c) nodelist)"

text \<open>Two disks that hold the same files but for the \<^verbatim>\<open>.css\<close> ones.\<close>

definition off_css_eq :: "(string \<Rightarrow> bytes option) \<Rightarrow> (string \<Rightarrow> bytes option) \<Rightarrow> bool" where
  "off_css_eq f g = (\<forall>p. endswith p ''.css'' \<or> f p = g p)"

text \<open>The compiler's result does not depend on the \<^verbatim>\<open>.css\<close> files on disk.\<close>

definition css_blind :: "env \<Rightarrow> bool" where
  "css_blind E =
     (\<forall>fs fs' ips f style.
        off_css_eq fs fs' \<longrightarrow> sass_compile E fs ips f style = sass_compile E fs' ips f style)"

definition css_only :: "(string \<Rightarrow> bytes option) \<Rightarrow> bool" where
  "css_only W = (\<forall>p. W p = None \<or> endswith p ''.css'')"

fun is_remove :: "call \<Rightarrow> bool" where
  "is_remove (OsRemove p) = True"
| "is_remove (SassCompile ips f style) = False"
| "is_remove (OpenForWriting p) = False"

text \<open>The parse failures \<^verbatim>\<open>parse_template\<close> has a handler for.\<close>

definition caught_parse_error :: "kind \<Rightarrow> bool" where
  "caught_parse_error k =
     (k = IOError \<or> k = TemplateSyntaxError \<or> k = TemplateDoesNotExist \<or> k = UnicodeDecodeError)"

fun parse_recovers :: "env \<Rightarrow> string \<Rightarrow> bool" where
  "parse_recovers E t = (case parse E t of Inr template \<Rightarrow> True | Inl e \<Rightarrow> caught_parse_error (fst e))"

subsection \<open>A small site\<close>

text \<open>
  One template directory \<^verbatim>\<open>/t\<close>. \<^verbatim>\<open>page.html\<close> parses; its tree holds two stylesheet
  references that resolve, one that does not and one to a static asset. \<^verbatim>\<open>notes.txt\<close>
  cannot be decoded and \<^verbatim>\<open>sub/base.html\<close> has a syntax error. The interpreter's default
  encoding is Latin-1, and the compiled CSS holds an e-acute.
\<close>

definition site_dir :: dir where
  "site_dir =
     Dir [''page.html'', ''notes.txt'', ''.hidden.html'', ''style.css'']
         [(''sub'', Dir [''base.html''] [])]"

definition site_nodelist :: "node \<Rightarrow> node \<Rightarrow> exn + node list" where
  "site_nodelist n original =
     (if n = Node 0 then
        Inr [SassSrcNode ''styles/main.scss'' [] True, Node 1,
             SassSrcNode ''img/logo.png'' [] False]
      else if n = Node 1 then
        Inr [SassSrcNode ''styles/theme.scss'' [''/inc''] True,
             SassSrcNode ''styles/missing.scss'' [] True]
      else Inr [])"

definition site_parse :: "string \<Rightarrow> exn + node" where
  "site_parse t =
     (if t = ''/t/page.html'' then Inr (Node 0)
      else if t = ''/t/notes.txt'' then Inl (UnicodeDecodeError, ''invalid start byte'')
      else Inl (TemplateSyntaxError, ''Invalid block tag''))"

definition site_find_file :: "string \<Rightarrow> string option" where
  "site_find_file p =
     (if p = ''styles/main.scss'' then Some ''/static/styles/main.scss''
      else if p = ''styles/theme.scss'' then Some ''/static/styles/theme.scss''
      else None)"

definition site :: env where
  "site =
     \<lparr>TEMPLATE_LOADERS = [''django.template.loaders.filesystem.Loader''],
      SASS_TEMPLATE_EXTS = None,
      SASS_OUTPUT_STYLE = None,
      engines = [[Loader (Inr [''/t'']) None]],
      template_dirs = (\<lambda>p. if p = ''/t'' then Some site_dir else None),
      parse = site_parse,
      get_nodelist = site_nodelist,
      recursion_limit = 1000,
      find_file = site_find_file,
      sass_compile = (\<lambda>fs ips f style. Inr [97, 233]),
      default_encoding = Latin1,
      read_only = (\<lambda>p. False),
      hash_key = (\<lambda>name. 0)\<rparr>"

text \<open>The same site with a stylesheet the compiler rejects.\<close>

definition broken_site :: env where
  "broken_site =
     site\<lparr>sass_compile := (\<lambda>fs ips f style. Inl (CompileError, ''invalid syntax''))\<rparr>"

definition compile_opts :: options where
  "compile_opts = \<lparr>opt_show_errors = True, opt_delete_files = False\<rparr>"

definition delete_opts :: options where
  "delete_opts = \<lparr>opt_show_errors = True, opt_delete_files = True\<rparr>"

definition empty_disk :: "string \<Rightarrow> bytes option" where
  "empty_disk = (\<lambda>p. None)"

definition compiled_disk :: "string \<Rightarrow> bytes option" where
  "compiled_disk =
     (\<lambda>p. if p = ''/static/styles/main.css'' \<or> p = ''/static/styles/theme.css''
          then Some [97, 233] else None)"

text \<open>
  No source is recorded twice; and in delete mode the artifact of every recorded source
  is gone from the disk.
\<close>

definition once :: "state \<Rightarrow> bool" where
  "once s =
     (distinct (compiled_files s)
      \<and> (\<not> delete_files s \<or> list_all (\<lambda>f. files s (css_path f) = None) (compiled_files s)))"

text \<open>
  What a run in one mode may do to a disk: in delete mode every call is a removal and
  each file is gone or as it was; in compile mode no call is a removal and each file
  that was there is still there.
\<close>

definition frame :: "bool \<Rightarrow> (string \<Rightarrow> bytes option) \<Rightarrow> state \<Rightarrow> bool" where
  "frame deleting disk s =
     (delete_files s = deleting
      \<and> (if deleting
          then list_all is_remove (calls s) \<and> (\<forall>p. files s p = None \<or> files s p = disk p)
          else list_all (\<lambda>c. \<not> is_remove c) (calls s)
               \<and> (\<forall>p. disk p = None \<or> files s p \<noteq> None)))"

text \<open>
  The compiler always returns a text, the default codec can encode it, and no path is
  protected against writing and removal: nothing the executor calls raises.
\<close>

definition no_executor_error :: "env \<Rightarrow> bool" where
  "no_executor_error E =
     ((\<forall>fs ips f style. \<exists>content data.
          sass_compile E fs ips f style = Inr content
          \<and> encode_text (default_encoding E) content = Some data)
      \<and> (\<forall>p. \<not> read_only E p))"

text \<open>
  A step of a compile-mode run can be replayed on a disk that differs only in its
  \<^verbatim>\<open>.css\<close> files: it raises or returns alike, makes the same writes \<open>W\<close>, all to
  \<^verbatim>\<open>.css\<close> paths, and leaves the rest of the state the same.
\<close>

definition replays :: "(state \<Rightarrow> exn option \<times> state) \<Rightarrow> bool" where
  "replays m =
     (\<forall>s g. delete_files s \<or> \<not> off_css_eq (files s) g
        \<or> (\<exists>W. css_only W
                 \<and> \<not> delete_files (snd (m s))
                 \<and> files (snd (m s)) = files s ++ W
                 \<and> m (s\<lparr>files := g\<rparr>) = (fst (m s), (snd (m s))\<lparr>files := g ++ W\<rparr>)))"

text \<open>
  Two templates that refer to \<^verbatim>\<open>x.scss\<close> and to \<^verbatim>\<open>x.sass\<close>: two sources, one artifact
  \<^verbatim>\<open>x.css\<close>. The compiler gives each source its own text and reads nothing else. The
  second environment is the same site in a process with other hashes.
\<close>

definition twin_parse :: "string \<Rightarrow> exn + node" where
  "twin_parse t =
     (if t = ''/t/a.html'' then Inr (Node 0)
      else if t = ''/t/b.html'' then Inr (Node 1)
      else Inl (TemplateDoesNotExist, t))"

definition twin_nodelist :: "node \<Rightarrow> node \<Rightarrow> exn + node list" where
  "twin_nodelist n original =
     (if n = Node 0 then Inr [SassSrcNode ''styles/x.scss'' [] True]
      else if n = Node 1 then Inr [SassSrcNode ''styles/x.sass'' [] True]
      else Inr [])"

definition twin_find_file :: "string \<Rightarrow> string option" where
  "twin_find_file p =
     (if p = ''styles/x.scss'' then Some ''/static/styles/x.scss''
      else if p = ''styles/x.sass'' then Some ''/static/styles/x.sass''
      else None)"

definition twin_site :: env where
  "twin_site =
     \<lparr>TEMPLATE_LOADERS = [''django.template.loaders.filesystem.Loader''],
      SASS_TEMPLATE_EXTS = None,
      SASS_OUTPUT_STYLE = None,
      engines = [[Loader (Inr [''/t'']) None]],
      template_dirs = (\<lambda>p. if p = ''/t'' then Some (Dir [''a.html'', ''b.html''] []) else None),
      parse = twin_parse,
      get_nodelist = twin_nodelist,
      recursion_limit = 1000,
      find_file = twin_find_file,
      sass_compile = (\<lambda>fs ips f style. Inr (if f = ''/static/styles/x.scss'' then [120] else [121])),
      default_encoding = Utf8,
      read_only = (\<lambda>p. False),
      hash_key = (\<lambda>name. 0)\<rparr>"

definition rehashed_twin_site :: env where
  "rehashed_twin_site = twin_site\<lparr>hash_key := (\<lambda>name. if name = ''/t/a.html'' then 1 else 0)\<rparr>"

text \<open>
  The small site with a compiler that, for \<^verbatim>\<open>main.scss\<close>, takes in the artifact
  \<^verbatim>\<open>theme.css\<close> when it is on disk.
\<close>

definition stale_site :: env where
  "stale_site =
     site\<lparr>sass_compile :=
            (\<lambda>fs ips f style.
               Inr (if f = ''/static/styles/main.scss''
                    then 97 # (case fs ''/static/styles/theme.css'' of None \<Rightarrow> [] | Some b \<Rightarrow> b)
                    else [98])),
          default_encoding := Utf8\<rparr>"

section \<open>Properties\<close>

lemmas site_defs = site_def site_dir_def site_nodelist_def site_parse_def site_find_file_def
  compile_opts_def delete_opts_def empty_disk_def compiled_disk_def broken_site_def

lemmas path_defs = path_join_def startswith_def endswith_def splitext_def css_path_def

subsection \<open>What every run preserves\<close>

text \<open>
  A property of the state that each compile or delete step and each line written keeps
  is kept by the loop over the nodes, by \<^verbatim>\<open>parse_template\<close>, by the loop over the
  templates and by \<^verbatim>\<open>handle\<close>, whether they return or raise.
\<close>

lemma process_nodes_invariant:
  assumes step: "\<And>n s x s'. P s \<Longrightarrow>
            (if delete_files s then delete_file E n s else compile E n s) = (x, s') \<Longrightarrow> P s'"
  shows "P s \<Longrightarrow> process_nodes E ns s = (x, s') \<Longrightarrow> P s'"
proof (induction ns arbitrary: s)
  case Nil
  then show ?case by simp
next
  case (Cons n ns)
  obtain y t where st: "(if delete_files s then delete_file E n s else compile E n s) = (y, t)"
    by (cases "if delete_files s then delete_file E n s else compile E n s") auto
  have Pt: "P t" using step [OF Cons.prems(1) st] .
  show ?case
  proof (cases y)
    case None
    with Cons.prems(2) st have "process_nodes E ns t = (x, s')" by simp
    from Cons.IH [OF Pt this] show ?thesis .
  next
    case (Some e)
    with Cons.prems(2) st have "s' = t" by simp
    with Pt show ?thesis by simp
  qed
qed

lemma walk_and_process_invariant:
  assumes step: "\<And>n s x s'. P s \<Longrightarrow>
            (if delete_files s then delete_file E n s else compile E n s) = (x, s') \<Longrightarrow> P s'"
      and out: "\<And>msg s. P s \<Longrightarrow> P (stdout_write msg s)"
  shows "P s \<Longrightarrow> walk_and_process E name t s = (x, s') \<Longrightarrow> P s'"
  unfolding walk_and_process_def
  by (auto split: sum.splits option.splits if_splits
           intro: out process_nodes_invariant [where P = P, OF step])

lemma parse_template_invariant:
  assumes step: "\<And>n s x s'. P s \<Longrightarrow>
            (if delete_files s then delete_file E n s else compile E n s) = (x, s') \<Longrightarrow> P s'"
      and out: "\<And>msg s. P s \<Longrightarrow> P (stdout_write msg s)"
  shows "P s \<Longrightarrow> parse_template E name s = (x, s') \<Longrightarrow> P s'"
  unfolding parse_template_def
  by (auto split: sum.splits if_splits
           intro: out walk_and_process_invariant [where P = P, OF step out])

lemma parse_templates_invariant:
  assumes step: "\<And>n s x s'. P s \<Longrightarrow>
            (if delete_files s then delete_file E n s else compile E n s) = (x, s') \<Longrightarrow> P s'"
      and out: "\<And>msg s. P s \<Longrightarrow> P (stdout_write msg s)"
  shows "P s \<Longrightarrow> parse_templates E ts s = (x, s') \<Longrightarrow> P s'"
proof (induction ts arbitrary: s)
  case Nil
  then show ?case by simp
next
  case (Cons name ts)
  obtain y t where st: "parse_template E name s = (y, t)"
    by (cases "parse_template E name s") auto
  have Pt: "P t" using parse_template_invariant [where P = P, OF step out Cons.prems(1) st] .
  show ?case
  proof (cases y)
    case None
    with Cons.prems(2) st have "parse_templates E ts t = (x, s')" by simp
    from Cons.IH [OF Pt this] show ?thesis .
  next
    case (Some e)
    with Cons.prems(2) st have "s' = t" by simp
    with Pt show ?thesis by simp
  qed
qed

lemma handle_invariant:
  assumes step: "\<And>n s x s'. P s \<Longrightarrow>
            (if delete_files s then delete_file E n s else compile E n s) = (x, s') \<Longrightarrow> P s'"
      and out: "\<And>msg s. P s \<Longrightarrow> P (stdout_write msg s)"
      and init: "P (init_state opts disk)"
  shows "handle E opts disk = (x, s') \<Longrightarrow> P s'"
  unfolding handle_def Let_def
  by (auto split: sum.splits prod.splits option.splits
           intro: init out parse_templates_invariant [where P = P, OF step out init])

subsection \<open>Finding the templates\<close>

lemma site_templates:
  "find_templates site = Inr [''/t/page.html'', ''/t/notes.txt'', ''/t/sub/base.html'']"
  by (simp add: find_templates_def site_defs get_loaders_def walk_path_def template_names_def
                extensions_def path_defs)

text \<open>
  C2 (the locator returns exactly the files whose name ends in a configured template
  extension, \<^verbatim>\<open>.html\<close> by default). The code does not do this: \<^verbatim>\<open>find_templates\<close>
  never reads the configured extensions and iterates over the letters of the string
  \<^verbatim>\<open>'html'\<close>, so it takes every file whose name ends in h, t, m or l. On the small site,
  with the default extension list, \<^verbatim>\<open>notes.txt\<close> is returned as a template.
\<close>

theorem find_templates_takes_txt:
  "template_exts site = [''.html'']
   \<and> find_templates site = Inr [''/t/page.html'', ''/t/notes.txt'', ''/t/sub/base.html'']"
  by (simp add: find_templates_def site_defs get_loaders_def walk_path_def template_names_def
                extensions_def path_defs template_exts_def)

subsection \<open>References that do not resolve\<close>

text \<open>
  C5: when the file resolver finds no file for a reference's path, compiling it and
  deleting it both return normally and leave the whole state as it was: nothing is
  counted, no file is written or removed, no line is printed, whatever the
  error-visibility flag of the state is.
\<close>

theorem unresolved_reference_is_noop:
  "find_file E path = None \<or> find_file E path = Some [] \<Longrightarrow>
     compile E (SassSrcNode path ips b) s = (None, s)
     \<and> delete_file E (SassSrcNode path ips b) s = (None, s)"
  by (auto simp: compile_def delete_file_def)

theorem unresolved_reference_is_noop_witness:
  "find_file site ''styles/missing.scss'' = None
   \<and> compile site (SassSrcNode ''styles/missing.scss'' [] True)
        (init_state compile_opts compiled_disk)
       = (None, init_state compile_opts compiled_disk)
   \<and> delete_file site (SassSrcNode ''styles/missing.scss'' [] True)
        (init_state delete_opts compiled_disk)
       = (None, init_state delete_opts compiled_disk)"
  using unresolved_reference_is_noop
          [of site "''styles/missing.scss''" "[]" True "init_state compile_opts compiled_disk"]
        unresolved_reference_is_noop
          [of site "''styles/missing.scss''" "[]" True "init_state delete_opts compiled_disk"]
  by (simp add: site_def site_find_file_def)

subsection \<open>Templates that do not parse\<close>

text \<open>
  C6 (a template whose parsing fails is skipped with exactly one diagnostic line when
  errors are shown). For a decode error the code prints two: the handler of
  \<^verbatim>\<open>UnicodeDecodeError\<close> does not return, the walk then reads the unbound local
  \<^verbatim>\<open>template\<close>, and the handler of the walk prints a second line.
\<close>

theorem decode_error_prints_two_lines:
  "parse site ''/t/notes.txt'' = Inl (UnicodeDecodeError, ''invalid start byte'')
   \<and> parse_template site ''/t/notes.txt'' (init_state compile_opts empty_disk)
     = (None, (init_state compile_opts empty_disk)
          \<lparr>stdout :=
             [''UnicodeDecodeError while trying to read template /t/notes.txt'' @ [newline],
              ''Error parsing template /t/notes.txt: local variable '' @ quote @ ''template''
              @ quote @ '' referenced before assignment'' @ [newline]]\<rparr>)"
  by (simp add: parse_template_def walk_and_process_def site_defs init_state_def stdout_write_def)

subsection \<open>The two example runs\<close>

lemma site_compile_run:
  "fst (handle site compile_opts empty_disk) = None"
  "compiled_files (snd (handle site compile_opts empty_disk))
     = [''/static/styles/main.scss'', ''/static/styles/theme.scss'']"
  "stdout (snd (handle site compile_opts empty_disk)) =
     [''Compiled SASS/SCSS file: '' @ quote @ ''styles/main.scss'' @ quote @ [newline],
      ''Compiled SASS/SCSS file: '' @ quote @ ''styles/theme.scss'' @ quote @ [newline],
      ''UnicodeDecodeError while trying to read template /t/notes.txt'' @ [newline],
      ''Error parsing template /t/notes.txt: local variable '' @ quote @ ''template''
        @ quote @ '' referenced before assignment'' @ [newline],
      ''Invalid template /t/sub/base.html: Invalid block tag'' @ [newline],
      ''Successfully compiled 2 referred SASS/SCSS files.'']"
  "calls (snd (handle site compile_opts empty_disk)) =
     [SassCompile [] ''/static/styles/main.scss'' ''compact'',
      OpenForWriting ''/static/styles/main.css'',
      SassCompile [''/inc''] ''/static/styles/theme.scss'' ''compact'',
      OpenForWriting ''/static/styles/theme.css'']"
  "files (snd (handle site compile_opts empty_disk)) ''/static/styles/main.css'' = Some [97, 233]"
  by code_simp+

lemma site_delete_run:
  "fst (handle site delete_opts compiled_disk) = None"
  "compiled_files (snd (handle site delete_opts compiled_disk))
     = [''/static/styles/main.scss'', ''/static/styles/theme.scss'']"
  "last (stdout (snd (handle site delete_opts compiled_disk))) =
     ''Successfully deleted 2 previously generated '' @ backtick @ ''*.css'' @ backtick
     @ '' files.''"
  "calls (snd (handle site delete_opts compiled_disk)) =
     [OsRemove ''/static/styles/main.css'', OsRemove ''/static/styles/theme.css'']"
  "files (snd (handle site delete_opts compiled_disk)) ''/static/styles/main.css'' = None"
  by code_simp+

lemma site_compile_run_pair:
  "handle site compile_opts empty_disk = (None, snd (handle site compile_opts empty_disk))"
  using site_compile_run(1) by (simp add: prod_eq_iff)

lemma site_delete_run_pair:
  "handle site delete_opts compiled_disk = (None, snd (handle site delete_opts compiled_disk))"
  using site_delete_run(1) by (simp add: prod_eq_iff)

subsection \<open>The mode of a run, and its summary line\<close>

lemma step_keeps_mode:
  "(if delete_files s then delete_file E n s else compile E n s) = (x, s')
   \<Longrightarrow> delete_files s' = delete_files s"
  by (auto simp: compile_def delete_file_def stdout_write_def Let_def
           split: node.splits option.splits sum.splits if_splits)

lemma handle_keeps_mode:
  assumes "handle E opts disk = (x, s')"
  shows "delete_files s' = opt_delete_files opts"
proof -
  have "\<And>n (s::state) x s'. delete_files s = opt_delete_files opts \<Longrightarrow>
          (if delete_files s then delete_file E n s else compile E n s) = (x, s') \<Longrightarrow>
          delete_files s' = opt_delete_files opts"
    using step_keeps_mode by metis
  moreover have "\<And>msg (s::state). delete_files s = opt_delete_files opts \<Longrightarrow>
          delete_files (stdout_write msg s) = opt_delete_files opts"
    by (simp add: stdout_write_def)
  moreover have "delete_files (init_state opts disk) = opt_delete_files opts"
    by (simp add: init_state_def)
  ultimately show ?thesis
    using assms by (rule handle_invariant [where P = "\<lambda>s. delete_files s = opt_delete_files opts"])
qed

lemma handle_summary:
  assumes "handle E opts disk = (None, s')"
  shows "stdout s' \<noteq> [] \<and>
         last (stdout s') = summary_line (opt_delete_files opts) (length (compiled_files s'))"
proof -
  from assms obtain t where
    s': "s' = stdout_write (summary_line (delete_files t) (length (compiled_files t))) t"
    by (auto simp: handle_def Let_def split: sum.splits prod.splits option.splits)
  have "delete_files s' = opt_delete_files opts" using assms by (rule handle_keeps_mode)
  with s' show ?thesis by (simp add: stdout_write_def)
qed

subsection \<open>Each source is recorded once\<close>

lemma step_once:
  "once s \<Longrightarrow> (if delete_files s then delete_file E n s else compile E n s) = (x, s')
   \<Longrightarrow> once s'"
  by (auto simp: once_def compile_def delete_file_def stdout_write_def Let_def list_all_iff
           split: node.splits option.splits sum.splits if_splits)

lemma handle_once:
  assumes "handle E opts disk = (x, s')"
  shows "once s'"
proof -
  have out: "\<And>msg s. once s \<Longrightarrow> once (stdout_write msg s)"
    by (simp add: once_def stdout_write_def)
  have init: "once (init_state opts disk)"
    by (simp add: once_def init_state_def)
  show ?thesis
    by (rule handle_invariant [where P = once, OF step_once out init assms])
qed

text \<open>
  C8: in compile mode and in delete mode, whatever the templates and however the run
  ends, no resolved source path stands twice in \<^verbatim>\<open>compiled_files\<close>; so when the run
  returns, the count in its summary line is the number of distinct sources recorded.
\<close>

theorem compiled_files_distinct:
  "handle E opts disk = (x, s') \<Longrightarrow>
     distinct (compiled_files s')
     \<and> (x = None \<longrightarrow>
          last (stdout s')
            = summary_line (opt_delete_files opts) (card (set (compiled_files s'))))"
  using handle_once [of E opts disk x s'] handle_summary [of E opts disk s']
  by (auto simp: once_def distinct_card)

theorem compiled_files_distinct_witness:
  "distinct (compiled_files (snd (handle site compile_opts empty_disk)))
   \<and> last (stdout (snd (handle site compile_opts empty_disk)))
       = summary_line False (card (set (compiled_files (snd (handle site compile_opts empty_disk)))))
   \<and> distinct (compiled_files (snd (handle site delete_opts compiled_disk)))
   \<and> last (stdout (snd (handle site delete_opts compiled_disk)))
       = summary_line True (card (set (compiled_files (snd (handle site delete_opts compiled_disk)))))"
  using compiled_files_distinct [OF site_compile_run_pair]
        compiled_files_distinct [OF site_delete_run_pair]
  by (simp add: compile_opts_def delete_opts_def)

subsection \<open>What each mode leaves alone\<close>

lemma step_frame:
  "frame d disk s \<Longrightarrow> (if delete_files s then delete_file E n s else compile E n s) = (x, s')
   \<Longrightarrow> frame d disk s'"
  unfolding frame_def
  apply (cases d)
   apply (auto simp: delete_file_def stdout_write_def Let_def
           split: node.splits option.splits sum.splits if_splits)[1]
  apply (auto simp: compile_def stdout_write_def Let_def
           split: node.splits option.splits sum.splits if_splits)[1]
  done

lemma frame_stdout_write:
  "frame d disk (stdout_write msg s) = frame d disk s"
  by (simp add: frame_def stdout_write_def)

lemma frame_init:
  "frame (opt_delete_files opts) disk (init_state opts disk)"
  unfolding frame_def init_state_def by (cases "opt_delete_files opts") auto

lemma handle_frame:
  assumes "handle E opts disk = (x, s')"
  shows "frame (opt_delete_files opts) disk s'"
proof -
  have out: "\<And>msg s. frame (opt_delete_files opts) disk s
               \<Longrightarrow> frame (opt_delete_files opts) disk (stdout_write msg s)"
    by (simp add: frame_stdout_write)
  show ?thesis
    by (rule handle_invariant [where P = "frame (opt_delete_files opts) disk",
                               OF step_frame out frame_init assms])
qed

text \<open>
  C10: a run in delete mode calls neither the compiler nor \<^verbatim>\<open>open\<close>, and creates or
  changes no file: every file is gone or as it was. A run in compile mode calls no
  removal, and every file that was on the disk is still there. This holds however the
  run ends.
\<close>

theorem mode_frame:
  "handle E opts disk = (x, s') \<Longrightarrow>
     (if opt_delete_files opts
      then list_all is_remove (calls s') \<and> (\<forall>p. files s' p = None \<or> files s' p = disk p)
      else list_all (\<lambda>c. \<not> is_remove c) (calls s') \<and> (\<forall>p. disk p = None \<or> files s' p \<noteq> None))"
  using handle_frame [of E opts disk x s'] unfolding frame_def by (cases "opt_delete_files opts") simp_all

theorem mode_frame_witness:
  "list_all is_remove (calls (snd (handle site delete_opts compiled_disk)))
   \<and> calls (snd (handle site delete_opts compiled_disk)) \<noteq> []
   \<and> (\<forall>p. files (snd (handle site delete_opts compiled_disk)) p = None
          \<or> files (snd (handle site delete_opts compiled_disk)) p = compiled_disk p)
   \<and> list_all (\<lambda>c. \<not> is_remove c) (calls (snd (handle site compile_opts compiled_disk)))
   \<and> (\<forall>p. compiled_disk p = None \<or> files (snd (handle site compile_opts compiled_disk)) p \<noteq> None)"
  using mode_frame [OF site_delete_run_pair]
        mode_frame [of site compile_opts compiled_disk "fst (handle site compile_opts compiled_disk)"
                "snd (handle site compile_opts compiled_disk)"]
        site_delete_run(4)
  by (simp add: compile_opts_def delete_opts_def)

subsection \<open>The walker\<close>

lemma collect_all_Inr:
  "list_all (\<lambda>r. \<exists>ys. r = Inr ys) rs \<Longrightarrow> \<exists>xs. collect rs = Inr xs"
  by (induction rs rule: collect.induct) auto

lemma collect_member:
  "collect rs = Inr xs \<Longrightarrow> x \<in> set xs \<longleftrightarrow> (\<exists>ys. Inr ys \<in> set rs \<and> x \<in> set ys)"
  by (induction rs arbitrary: xs rule: collect.induct) (auto split: sum.splits)

lemma walk_nodes_yields_sass:
  "walk_nodes E d n orig = Inr ns \<Longrightarrow> x \<in> set ns \<Longrightarrow> \<exists>p ips. x = SassSrcNode p ips True"
proof (induction d arbitrary: n orig ns x)
  case 0
  then show ?case by simp
next
  case (Suc d)
  let ?o = "case orig of None \<Rightarrow> n | Some orig \<Rightarrow> orig"
  define f where "f = (\<lambda>c. case c of
                 SassSrcNode p ips is_sass \<Rightarrow> Inr (if is_sass then [c] else [])
               | Node i \<Rightarrow> walk_nodes E d c (Some ?o))"
  from Suc.prems(1) obtain nodelist where
    nl: "get_nodelist E n ?o = Inr nodelist"
    and col: "collect (map f nodelist) = Inr ns"
    by (auto simp: Let_def f_def split: sum.splits)
  from collect_member [OF col, of x] Suc.prems(2)
  have "\<exists>ys. Inr ys \<in> f ` set nodelist \<and> x \<in> set ys" by simp
  then obtain ys c where c: "c \<in> set nodelist" and ys: "f c = Inr ys" and x: "x \<in> set ys"
    by (metis imageE)
  show ?case
  proof (cases c)
    case (SassSrcNode p ips b)
    with ys x show ?thesis by (auto simp: f_def split: if_splits)
  next
    case (Node i)
    with ys have "walk_nodes E d c (Some ?o) = Inr ys" by (simp add: f_def)
    from Suc.IH [OF this x] show ?thesis .
  qed
qed


subsection \<open>Which errors a run survives\<close>

lemma compile_returns:
  assumes "no_executor_error E"
  shows "fst (compile E (SassSrcNode p ips b) s) = None"
proof (cases "find_file E p")
  case None
  then show ?thesis by (simp add: compile_def)
next
  case (Some f)
  from assms obtain content data where
    "sass_compile E (files s) ips f (output_style E) = Inr content"
    "encode_text (default_encoding E) content = Some data"
    unfolding no_executor_error_def by blast
  moreover from assms have "\<not> read_only E (css_path f)"
    unfolding no_executor_error_def by blast
  ultimately show ?thesis using Some by (simp add: compile_def Let_def)
qed

lemma delete_file_returns:
  assumes "no_executor_error E"
  shows "fst (delete_file E (SassSrcNode p ips b) s) = None"
  using assms unfolding no_executor_error_def
  by (simp add: delete_file_def Let_def split: option.splits)

lemma process_nodes_returns:
  assumes "no_executor_error E"
  shows "list_all isinstance_SassSrcNode ns \<Longrightarrow> fst (process_nodes E ns s) = None"
proof (induction ns arbitrary: s)
  case Nil
  then show ?case by simp
next
  case (Cons n ns)
  from Cons.prems obtain p ips b where n: "n = SassSrcNode p ips b"
    by (cases n) auto
  have "fst (if delete_files s then delete_file E n s else compile E n s) = None"
    using compile_returns [OF assms] delete_file_returns [OF assms] n by simp
  then obtain t where "(if delete_files s then delete_file E n s else compile E n s) = (None, t)"
    by (metis prod.collapse)
  moreover have "fst (process_nodes E ns t) = None"
    using Cons.IH Cons.prems by simp
  ultimately show ?case by simp
qed

lemma walk_and_process_returns:
  assumes "no_executor_error E"
  shows "fst (walk_and_process E name t s) = None"
proof (cases "case t of None \<Rightarrow> Inl (UnboundLocalError,
                           ''local variable '' @ quote @ ''template'' @ quote
                           @ '' referenced before assignment'')
            | Some t \<Rightarrow> walk_nodes E (recursion_limit E) t None")
  case (Inl e)
  then show ?thesis by (simp add: walk_and_process_def)
next
  case (Inr ns)
  then obtain r where "t = Some r" and w: "walk_nodes E (recursion_limit E) r None = Inr ns"
    by (cases t) auto
  have "list_all isinstance_SassSrcNode ns"
    using walk_nodes_yields_sass [OF w] by (fastforce simp: list_all_iff)
  from process_nodes_returns [OF assms this] Inr show ?thesis
    by (simp add: walk_and_process_def)
qed

lemma parse_template_returns:
  assumes "no_executor_error E" and "parse_recovers E name"
  shows "fst (parse_template E name s) = None"
  using assms(2) walk_and_process_returns [OF assms(1)]
  by (auto simp: parse_template_def caught_parse_error_def split: sum.splits)

lemma parse_templates_returns:
  assumes "no_executor_error E"
  shows "list_all (parse_recovers E) ts \<Longrightarrow> fst (parse_templates E ts s) = None"
proof (induction ts arbitrary: s)
  case Nil
  then show ?case by simp
next
  case (Cons name ts)
  have "fst (parse_template E name s) = None"
    using parse_template_returns [OF assms] Cons.prems by simp
  then obtain t where "parse_template E name s = (None, t)"
    by (metis prod.collapse)
  moreover have "fst (parse_templates E ts t) = None"
    using Cons.IH Cons.prems by simp
  ultimately show ?case by simp
qed

text \<open>
  C1, as amended: once the templates are found, a run returns normally and ends with
  the summary line whenever each parse either succeeds or fails with one of the four
  kinds \<^verbatim>\<open>parse_template\<close> handles, and the compiler, the encoding of its output and the
  file operations do not raise. Exceptions raised while walking a template, of any
  kind, are among the errors survived: no hypothesis restricts them.
\<close>

theorem handle_survives_caught_errors:
  assumes "find_templates E = Inr templates"
      and "list_all (parse_recovers E) templates"
      and "no_executor_error E"
  shows "\<exists>s'. handle E opts disk = (None, s')
              \<and> stdout s' \<noteq> []
              \<and> last (stdout s')
                  = summary_line (opt_delete_files opts) (length (compiled_files s'))"
proof -
  have "list_all (parse_recovers E) (set_iteration E templates)"
    using assms(2) by (simp add: set_iteration_def list_all_iff)
  then have "fst (parse_templates E (set_iteration E templates) (init_state opts disk)) = None"
    using parse_templates_returns [OF assms(3)] by blast
  then obtain t where
    "parse_templates E (set_iteration E templates) (init_state opts disk) = (None, t)"
    by (metis prod.collapse)
  with assms(1) have "\<exists>s'. handle E opts disk = (None, s')"
    by (simp add: handle_def)
  then obtain s' where h: "handle E opts disk = (None, s')" ..
  from handle_summary [OF h] h show ?thesis by blast
qed

lemma site_no_executor_error: "no_executor_error site"
  by (simp add: no_executor_error_def site_def encode_char_def)

lemma site_parse_recovers:
  "list_all (parse_recovers site) [''/t/page.html'', ''/t/notes.txt'', ''/t/sub/base.html'']"
  by (simp add: site_def site_parse_def caught_parse_error_def)

theorem handle_survives_caught_errors_witness:
  "\<exists>s'. handle site compile_opts empty_disk = (None, s')
        \<and> stdout s' \<noteq> []
        \<and> last (stdout s') = summary_line False (length (compiled_files s'))"
  using handle_survives_caught_errors [OF site_templates site_parse_recovers site_no_executor_error,
            of compile_opts empty_disk]
  by (simp add: compile_opts_def)

text \<open>
  C1 as stated fails: nothing catches an exception of the compiler. On the site whose
  stylesheet the compiler rejects, the templates are found, and \<^verbatim>\<open>handle\<close> raises
  \<^verbatim>\<open>CompileError\<close> without having printed a line.
\<close>

theorem compile_error_aborts_run:
  "find_templates broken_site = Inr [''/t/page.html'', ''/t/notes.txt'', ''/t/sub/base.html'']
   \<and> fst (handle broken_site compile_opts empty_disk) = Some (CompileError, ''invalid syntax'')
   \<and> stdout (snd (handle broken_site compile_opts empty_disk)) = []"
  by code_simp

subsection \<open>The two operations on one reference\<close>

lemma splitext_append: "fst (splitext f) @ snd (splitext f) = f"
  by (simp add: splitext_def Let_def split: option.splits)

text \<open>
  C4: \<^verbatim>\<open>delete_file\<close> resolves the reference's path. Unresolved, it does nothing. When
  the sibling \<^verbatim>\<open>.css\<close> artifact (the source path with its extension replaced) exists
  and may be removed, it removes that file, appends the resolved path to
  \<^verbatim>\<open>compiled_files\<close> and prints one line; when the artifact does not exist it does
  nothing. In every case at most one path of the disk changes.
\<close>

theorem delete_file_removes_artifact:
  "(find_file E path = None \<longrightarrow> delete_file E (SassSrcNode path ips b) s = (None, s))
   \<and> (find_file E path = Some f \<and> files s (css_path f) = None
        \<longrightarrow> delete_file E (SassSrcNode path ips b) s = (None, s))
   \<and> (find_file E path = Some f \<and> f \<noteq> [] \<and> files s (css_path f) \<noteq> None
        \<and> \<not> read_only E (css_path f)
        \<longrightarrow> delete_file E (SassSrcNode path ips b) s =
             (None, s\<lparr>files := (files s)(css_path f := None),
                      compiled_files := compiled_files s @ [f],
                      stdout := stdout s @ [''Deleted '' @ quote @ css_path f @ quote @ [newline]],
                      calls := calls s @ [OsRemove (css_path f)]\<rparr>))
   \<and> (\<exists>d. \<forall>p. p = d \<or> files (snd (delete_file E (SassSrcNode path ips b) s)) p = files s p)
   \<and> css_path f = fst (splitext f) @ ''.css''"
proof -
  have "\<exists>d. \<forall>p. p = d \<or> files (snd (delete_file E (SassSrcNode path ips b) s)) p = files s p"
  proof (cases "find_file E path")
    case None
    then show ?thesis by (simp add: delete_file_def)
  next
    case (Some g)
    have "\<forall>p. p = css_path g \<or> files (snd (delete_file E (SassSrcNode path ips b) s)) p = files s p"
      using Some by (simp add: delete_file_def Let_def stdout_write_def)
    then show ?thesis ..
  qed
  then show ?thesis
    by (auto simp: delete_file_def Let_def stdout_write_def css_path_def)
qed

theorem delete_file_removes_artifact_witness:
  "find_file site ''styles/main.scss'' = Some ''/static/styles/main.scss''
   \<and> css_path ''/static/styles/main.scss'' = ''/static/styles/main.css''
   \<and> compiled_disk ''/static/styles/main.css'' = Some [97, 233]
   \<and> delete_file site (SassSrcNode ''styles/main.scss'' [] True) (init_state delete_opts compiled_disk)
       = (None, (init_state delete_opts compiled_disk)
                  \<lparr>files := compiled_disk(''/static/styles/main.css'' := None),
                   compiled_files := [''/static/styles/main.scss''],
                   stdout := [''Deleted '' @ quote @ ''/static/styles/main.css'' @ quote @ [newline]],
                   calls := [OsRemove ''/static/styles/main.css'']\<rparr>)"
proof -
  have a: "find_file site ''styles/main.scss'' = Some ''/static/styles/main.scss''"
    by (simp add: site_def site_find_file_def)
  have b: "css_path ''/static/styles/main.scss'' = ''/static/styles/main.css''"
    by (simp add: path_defs)
  have c: "compiled_disk ''/static/styles/main.css'' = Some [97, 233]"
    by (simp add: compiled_disk_def)
  have d: "\<not> read_only site ''/static/styles/main.css''"
    by (simp add: site_def)
  show ?thesis
    using delete_file_removes_artifact [where E = site and path = "''styles/main.scss''" and ips = "[]" and b = True
                and f = "''/static/styles/main.scss''"
                and s = "init_state delete_opts compiled_disk"]
          a b c d
    by (simp add: init_state_def)
qed

text \<open>
  C3, as amended: \<^verbatim>\<open>compile\<close> resolves the reference's path; unresolved, or already
  in \<^verbatim>\<open>compiled_files\<close>, it does nothing. Otherwise it calls the compiler with the
  node's include paths, the resolved file name and the configured output style
  (\<^verbatim>\<open>compact\<close> when unset); when the compiler returns and the artifact can be written,
  it writes the result, encoded with the interpreter's default codec, to the source
  path with its extension replaced by \<^verbatim>\<open>.css\<close>, appends the resolved path to
  \<^verbatim>\<open>compiled_files\<close> and prints one line.
\<close>

theorem compile_writes_artifact:
  "(find_file E path = None \<or> find_file E path = Some []
      \<or> (find_file E path = Some f \<and> f \<in> set (compiled_files s))
        \<longrightarrow> compile E (SassSrcNode path ips b) s = (None, s))
   \<and> (find_file E path = Some f \<and> f \<noteq> [] \<and> f \<notin> set (compiled_files s)
        \<and> sass_compile E (files s) ips f (output_style E) = Inr content
        \<and> \<not> read_only E (css_path f)
        \<and> encode_text (default_encoding E) content = Some data
        \<longrightarrow> compile E (SassSrcNode path ips b) s =
             (None, s\<lparr>files := (files s)(css_path f \<mapsto> data),
                      compiled_files := compiled_files s @ [f],
                      stdout := stdout s
                        @ [''Compiled SASS/SCSS file: '' @ quote @ path @ quote @ [newline]],
                      calls := calls s @ [SassCompile ips f (output_style E),
                                          OpenForWriting (css_path f)]\<rparr>))
   \<and> fst (splitext f) @ snd (splitext f) = f
   \<and> css_path f = fst (splitext f) @ ''.css''
   \<and> (SASS_OUTPUT_STYLE E = None \<longrightarrow> output_style E = ''compact'')"
  by (auto simp: compile_def Let_def stdout_write_def css_path_def output_style_def
                 splitext_append)

theorem compile_writes_artifact_witness:
  "find_file site ''styles/main.scss'' = Some ''/static/styles/main.scss''
   \<and> output_style site = ''compact''
   \<and> css_path ''/static/styles/main.scss'' = ''/static/styles/main.css''
   \<and> encode_text (default_encoding site) [97, 233] = Some [97, 233]
   \<and> compile site (SassSrcNode ''styles/main.scss'' [] True) (init_state compile_opts empty_disk)
       = (None, (init_state compile_opts empty_disk)
                  \<lparr>files := empty_disk(''/static/styles/main.css'' \<mapsto> [97, 233]),
                   compiled_files := [''/static/styles/main.scss''],
                   stdout := [''Compiled SASS/SCSS file: '' @ quote @ ''styles/main.scss''
                              @ quote @ [newline]],
                   calls := [SassCompile [] ''/static/styles/main.scss'' ''compact'',
                             OpenForWriting ''/static/styles/main.css'']\<rparr>)"
proof -
  have a: "find_file site ''styles/main.scss'' = Some ''/static/styles/main.scss''"
    by (simp add: site_def site_find_file_def)
  have b: "css_path ''/static/styles/main.scss'' = ''/static/styles/main.css''"
    by (simp add: path_defs)
  have c: "output_style site = ''compact''"
    by (simp add: output_style_def site_def)
  have d: "\<not> read_only site ''/static/styles/main.css''"
    by (simp add: site_def)
  have e: "encode_text (default_encoding site) [97, 233] = Some [97, 233]"
    by (simp add: site_def encode_char_def)
  have f: "sass_compile site empty_disk [] ''/static/styles/main.scss'' ''compact'' = Inr [97, 233]"
    by (simp add: site_def)
  show ?thesis
    using compile_writes_artifact [where E = site and path = "''styles/main.scss''" and ips = "[]" and b = True
                and f = "''/static/styles/main.scss''" and content = "[97, 233]"
                and data = "[97, 233]"
                and s = "init_state compile_opts empty_disk"]
          a b c d e f
    by (simp add: init_state_def)
qed

text \<open>
  C3 as stated fails on the encoding: the code names none. Where the default codec is
  Latin-1 and the compiled text is an a and an e-acute, the artifact holds the two
  bytes 97 and 233, which is not the UTF-8 encoding of that text.
\<close>

theorem artifact_not_utf8:
  "sass_compile site empty_disk [] ''/static/styles/main.scss'' ''compact'' = Inr [97, 233]
   \<and> files (snd (compile site (SassSrcNode ''styles/main.scss'' [] True)
                   (init_state compile_opts empty_disk)))
        ''/static/styles/main.css'' = Some [97, 233]
   \<and> encode_text Utf8 [97, 233] = Some [97, 195, 169]"
  by code_simp

subsection \<open>What the walker yields\<close>

lemma in_tree_iff:
  assumes "get_nodelist E r orig = Inr cs"
  shows "in_tree E orig r n \<longleftrightarrow> (\<exists>c \<in> set cs. n = c \<or> in_tree E orig c n)"
proof
  assume "in_tree E orig r n"
  then show "\<exists>c \<in> set cs. n = c \<or> in_tree E orig c n"
    using assms by (cases rule: in_tree.cases) auto
next
  assume "\<exists>c \<in> set cs. n = c \<or> in_tree E orig c n"
  then show "in_tree E orig r n"
    using assms by (auto intro: in_tree.intros)
qed

lemma in_tree_leaf:
  "get_nodelist E r orig = Inr [] \<Longrightarrow> \<not> in_tree E orig r n"
  by (simp add: in_tree_iff)

lemma walk_nodes_None: "walk_nodes E d r None = walk_nodes E d r (Some r)"
  by (cases d) simp_all

lemma walk_nodes_exactly_aux:
  assumes leaf: "\<forall>p ips b. get_nodelist E (SassSrcNode p ips b) orig = Inr []"
  shows "expandable E orig d r \<Longrightarrow>
         \<exists>ns. walk_nodes E d r (Some orig) = Inr ns
              \<and> (\<forall>n. n \<in> set ns \<longleftrightarrow>
                       in_tree E orig r n \<and> (\<exists>p ips. n = SassSrcNode p ips True))"
proof (induction d arbitrary: r)
  case 0
  then show ?case by simp
next
  case (Suc d)
  define f where "f = (\<lambda>c. case c of
                 SassSrcNode p ips is_sass \<Rightarrow> Inr (if is_sass then [c] else [])
               | Node i \<Rightarrow> walk_nodes E d c (Some orig))"
  from Suc.prems obtain cs where
    cs: "get_nodelist E r orig = Inr cs"
    and ok: "list_all (\<lambda>c. isinstance_SassSrcNode c \<or> expandable E orig d c) cs"
    by (auto split: sum.splits)
  have each: "\<exists>ys. f c = Inr ys
               \<and> (\<forall>n. n \<in> set ys \<longleftrightarrow>
                        (n = c \<or> in_tree E orig c n) \<and> (\<exists>p ips. n = SassSrcNode p ips True))"
    if "c \<in> set cs" for c
  proof (cases c)
    case (SassSrcNode p ips b)
    have "\<not> in_tree E orig c n" for n
      using leaf SassSrcNode by (simp add: in_tree_leaf)
    then show ?thesis using SassSrcNode by (auto simp: f_def)
  next
    case (Node i)
    with that ok have "expandable E orig d c" by (auto simp: list_all_iff)
    from Suc.IH [OF this] Node show ?thesis by (auto simp: f_def)
  qed
  then have "list_all (\<lambda>r. \<exists>ys. r = Inr ys) (map f cs)"
    by (fastforce simp: list_all_iff)
  then obtain ns where ns: "collect (map f cs) = Inr ns"
    using collect_all_Inr by blast
  have w: "walk_nodes E (Suc d) r (Some orig) = Inr ns"
    using cs ns by (simp add: f_def)
  have "n \<in> set ns \<longleftrightarrow> in_tree E orig r n \<and> (\<exists>p ips. n = SassSrcNode p ips True)" for n
  proof
    assume "n \<in> set ns"
    with collect_member [OF ns, of n] obtain c ys where
      "c \<in> set cs" "f c = Inr ys" "n \<in> set ys"
      by (metis (no_types, lifting) imageE list.set_map)
    with each [of c] show "in_tree E orig r n \<and> (\<exists>p ips. n = SassSrcNode p ips True)"
      using in_tree_iff [OF cs] by auto
  next
    assume a: "in_tree E orig r n \<and> (\<exists>p ips. n = SassSrcNode p ips True)"
    then obtain c where c: "c \<in> set cs" "n = c \<or> in_tree E orig c n"
      using in_tree_iff [OF cs] by auto
    from each [OF c(1)] obtain ys where ys: "f c = Inr ys" "n \<in> set ys"
      using a c(2) by auto
    have "Inr ys \<in> set (map f cs)" using c(1) ys(1) by (metis image_eqI list.set_map)
    with collect_member [OF ns, of n] ys(2) show "n \<in> set ns" by blast
  qed
  with w show ?case by blast
qed

text \<open>
  C9: when every node list the walker asks the parser for is given (no exception, and
  the tree no deeper than the interpreter allows), and a stylesheet reference has no
  child nodes, the walker returns, and the nodes it yields are exactly the stylesheet
  references with \<^verbatim>\<open>is_sass\<close> set that occur anywhere in the template's tree: each of
  them is yielded, and nothing else is.
\<close>

theorem walk_nodes_yields_exactly_sass_references:
  assumes "expandable E template depth template"
      and "\<forall>p ips b. get_nodelist E (SassSrcNode p ips b) template = Inr []"
  shows "\<exists>ns. walk_nodes E depth template None = Inr ns
              \<and> (\<forall>n. n \<in> set ns \<longleftrightarrow>
                       in_tree E template template n \<and> (\<exists>p ips. n = SassSrcNode p ips True))"
  using walk_nodes_exactly_aux [OF assms(2) assms(1)] by (simp add: walk_nodes_None)

lemma site_expandable: "expandable site (Node 0) 1000 (Node 0)"
  by code_simp

lemma site_leaves: "\<forall>p ips b. get_nodelist site (SassSrcNode p ips b) (Node 0) = Inr []"
  by (simp add: site_def site_nodelist_def)

lemma site_walk:
  "walk_nodes site 1000 (Node 0) None
     = Inr [SassSrcNode ''styles/main.scss'' [] True,
            SassSrcNode ''styles/theme.scss'' [''/inc''] True,
            SassSrcNode ''styles/missing.scss'' [] True]"
  by code_simp

theorem walk_nodes_yields_exactly_sass_references_witness:
  "expandable site (Node 0) 1000 (Node 0)
   \<and> walk_nodes site 1000 (Node 0) None
       = Inr [SassSrcNode ''styles/main.scss'' [] True,
              SassSrcNode ''styles/theme.scss'' [''/inc''] True,
              SassSrcNode ''styles/missing.scss'' [] True]
   \<and> in_tree site (Node 0) (Node 0) (SassSrcNode ''styles/theme.scss'' [''/inc''] True)
   \<and> \<not> in_tree site (Node 0) (Node 0) (SassSrcNode ''styles/other.scss'' [] True)"
proof -
  from walk_nodes_yields_exactly_sass_references [OF site_expandable site_leaves]
  obtain ns where ns: "walk_nodes site 1000 (Node 0) None = Inr ns"
    and iff: "\<And>n. n \<in> set ns \<longleftrightarrow>
                in_tree site (Node 0) (Node 0) n \<and> (\<exists>p ips. n = SassSrcNode p ips True)"
    by blast
  from ns have eq: "ns = [SassSrcNode ''styles/main.scss'' [] True,
                          SassSrcNode ''styles/theme.scss'' [''/inc''] True,
                          SassSrcNode ''styles/missing.scss'' [] True]"
    by (simp only: site_walk sum.inject)
  have a: "in_tree site (Node 0) (Node 0) (SassSrcNode ''styles/theme.scss'' [''/inc''] True)"
    using iff [of "SassSrcNode ''styles/theme.scss'' [''/inc''] True"] by (simp add: eq)
  have b: "\<not> in_tree site (Node 0) (Node 0) (SassSrcNode ''styles/other.scss'' [] True)"
    using iff [of "SassSrcNode ''styles/other.scss'' [] True"] by (simp add: eq)
  from site_expandable site_walk a b show ?thesis by (simp only: simp_thms)
qed

subsection \<open>Running the compile twice\<close>

lemma replaysI:
  assumes "\<And>s g. \<not> delete_files s \<Longrightarrow> off_css_eq (files s) g \<Longrightarrow>
             \<exists>W. css_only W
                 \<and> \<not> delete_files (snd (m s))
                 \<and> files (snd (m s)) = files s ++ W
                 \<and> m (s\<lparr>files := g\<rparr>) = (fst (m s), (snd (m s))\<lparr>files := g ++ W\<rparr>)"
  shows "replays m"
  unfolding replays_def using assms by blast

lemma replaysD:
  assumes "replays m" "\<not> delete_files s" "off_css_eq (files s) g"
  obtains W where "css_only W" "\<not> delete_files (snd (m s))"
    "files (snd (m s)) = files s ++ W"
    "m (s\<lparr>files := g\<rparr>) = (fst (m s), (snd (m s))\<lparr>files := g ++ W\<rparr>)"
  using assms unfolding replays_def by blast

lemma css_only_empty: "css_only Map.empty"
  by (simp add: css_only_def)

lemma css_only_add: "css_only W1 \<Longrightarrow> css_only W2 \<Longrightarrow> css_only (W1 ++ W2)"
  unfolding css_only_def by (metis map_add_None)

lemma endswith_append: "endswith (a @ b) b"
  by (simp add: endswith_def)

lemma css_only_css_path: "css_only [css_path f \<mapsto> d]"
  by (simp add: css_only_def css_path_def endswith_append)

lemma off_css_eq_refl: "off_css_eq f f"
  by (simp add: off_css_eq_def)

lemma off_css_eq_add: "off_css_eq f g \<Longrightarrow> off_css_eq (f ++ W) (g ++ W)"
  unfolding off_css_eq_def map_add_def by (auto split: option.splits)

lemma off_css_eq_css_only:
  assumes "css_only W"
  shows "off_css_eq f (f ++ W)"
  unfolding off_css_eq_def
proof (intro allI)
  fix p
  from assms have "W p = None \<or> endswith p ''.css''"
    unfolding css_only_def by blast
  then show "endswith p ''.css'' \<or> f p = (f ++ W) p"
    by (auto simp: map_add_def)
qed

lemma replays_return: "replays (\<lambda>s. (x, s))"
  by (rule replaysI, rule exI [of _ Map.empty]) (simp add: css_only_empty)

lemma replays_note:
  "replays (\<lambda>s. (None, if show_errors s \<noteq> 0 then stdout_write msg s else s))"
  by (rule replaysI, rule exI [of _ Map.empty]) (simp add: css_only_empty stdout_write_def)

lemma replays_stdout_write: "replays (\<lambda>s. (None, stdout_write msg s))"
  by (rule replaysI, rule exI [of _ Map.empty]) (simp add: css_only_empty stdout_write_def)

lemma replays_seq:
  assumes m: "replays m" and k: "replays k"
  shows "replays (\<lambda>s. case m s of (Some e, s') \<Rightarrow> (Some e, s') | (None, s') \<Rightarrow> k s')"
proof (rule replaysI)
  fix s :: state and g
  assume nd: "\<not> delete_files s" and eq: "off_css_eq (files s) g"
  obtain x s1 where ms: "m s = (x, s1)" by (cases "m s") auto
  from replaysD [OF m nd eq] ms obtain W1 where
    W1: "css_only W1" "\<not> delete_files s1" "files s1 = files s ++ W1"
        "m (s\<lparr>files := g\<rparr>) = (x, s1\<lparr>files := g ++ W1\<rparr>)"
    by (metis fst_conv snd_conv)
  let ?mk = "\<lambda>s. case m s of (Some e, s') \<Rightarrow> (Some e, s') | (None, s') \<Rightarrow> k s'"
  show "\<exists>W. css_only W \<and> \<not> delete_files (snd (?mk s))
            \<and> files (snd (?mk s)) = files s ++ W
            \<and> ?mk (s\<lparr>files := g\<rparr>) = (fst (?mk s), (snd (?mk s))\<lparr>files := g ++ W\<rparr>)"
  proof (cases x)
    case (Some e)
    with ms W1 show ?thesis by (intro exI [of _ W1]) simp
  next
    case None
    have eq1: "off_css_eq (files s1) (g ++ W1)"
      using W1(3) off_css_eq_add [OF eq] by simp
    from replaysD [OF k W1(2) eq1] obtain W2 where
      W2: "css_only W2" "\<not> delete_files (snd (k s1))"
          "files (snd (k s1)) = files s1 ++ W2"
          "k (s1\<lparr>files := g ++ W1\<rparr>) = (fst (k s1), (snd (k s1))\<lparr>files := (g ++ W1) ++ W2\<rparr>)"
      by blast
    show ?thesis
      using None ms W1 W2
      by (intro exI [of _ "W1 ++ W2"]) (simp add: css_only_add)
  qed
qed

lemma replays_compile:
  assumes blind: "css_blind E"
  shows "replays (compile E n)"
proof (rule replaysI)
  fix s :: state and g
  assume nd: "\<not> delete_files s" and eq: "off_css_eq (files s) g"
  let ?goal = "\<exists>W. css_only W \<and> \<not> delete_files (snd (compile E n s))
            \<and> files (snd (compile E n s)) = files s ++ W
            \<and> compile E n (s\<lparr>files := g\<rparr>)
                = (fst (compile E n s), (snd (compile E n s))\<lparr>files := g ++ W\<rparr>)"
  show ?goal
  proof (cases n)
    case (Node i)
    with nd show ?thesis
      by (intro exI [of _ Map.empty]) (simp add: compile_def css_only_empty)
  next
    case (SassSrcNode p ips b)
    show ?thesis
    proof (cases "find_file E p")
      case None
      with SassSrcNode nd show ?thesis
        by (intro exI [of _ Map.empty]) (simp add: compile_def css_only_empty)
    next
      case (Some f)
      show ?thesis
      proof (cases "f = [] \<or> f \<in> set (compiled_files s)")
        case True
        with Some SassSrcNode nd show ?thesis
          by (intro exI [of _ Map.empty]) (auto simp: compile_def css_only_empty)
      next
        case False
        have same: "sass_compile E g ips f (output_style E)
                      = sass_compile E (files s) ips f (output_style E)"
          using blind eq unfolding css_blind_def by (metis (full_types))
        show ?thesis
        proof (cases "sass_compile E (files s) ips f (output_style E)")
          case (Inl e)
          with same False Some SassSrcNode nd show ?thesis
            by (intro exI [of _ Map.empty]) (simp add: compile_def css_only_empty)
        next
          case (Inr content)
          show ?thesis
          proof (cases "read_only E (css_path f)")
            case True
            with Inr same False Some SassSrcNode nd show ?thesis
              by (intro exI [of _ Map.empty]) (simp add: compile_def css_only_empty Let_def)
          next
            case ro: False
            show ?thesis
            proof (cases "encode_text (default_encoding E) content")
              case None
              with ro Inr same False Some SassSrcNode nd show ?thesis
                by (intro exI [of _ "[css_path f \<mapsto> []]"])
                   (simp add: compile_def css_only_css_path Let_def)
            next
              case (Some data)
              with ro Inr same False \<open>find_file E p = Some f\<close> SassSrcNode nd show ?thesis
                by (intro exI [of _ "[css_path f \<mapsto> data]"])
                   (simp add: compile_def css_only_css_path Let_def stdout_write_def)
            qed
          qed
        qed
      qed
    qed
  qed
qed

lemma replays_step:
  assumes "css_blind E"
  shows "replays (\<lambda>s. if delete_files s then delete_file E n s else compile E n s)"
proof (rule replaysI)
  fix s :: state and g
  assume nd: "\<not> delete_files s" and eq: "off_css_eq (files s) g"
  from replaysD [OF replays_compile [OF assms, of n] nd eq] nd
  show "\<exists>W. css_only W
          \<and> \<not> delete_files (snd (if delete_files s then delete_file E n s else compile E n s))
          \<and> files (snd (if delete_files s then delete_file E n s else compile E n s)) = files s ++ W
          \<and> (if delete_files (s\<lparr>files := g\<rparr>) then delete_file E n (s\<lparr>files := g\<rparr>)
              else compile E n (s\<lparr>files := g\<rparr>))
             = (fst (if delete_files s then delete_file E n s else compile E n s),
                (snd (if delete_files s then delete_file E n s else compile E n s))\<lparr>files := g ++ W\<rparr>)"
    by auto
qed

lemma replays_process_nodes:
  assumes "css_blind E"
  shows "replays (process_nodes E ns)"
proof (induction ns)
  case Nil
  have "process_nodes E [] = (\<lambda>s. (None, s))" by (rule ext) simp
  then show ?case by (simp add: replays_return)
next
  case (Cons n ns)
  have "process_nodes E (n # ns)
          = (\<lambda>s. case (if delete_files s then delete_file E n s else compile E n s) of
                   (Some e, s') \<Rightarrow> (Some e, s')
                 | (None, s') \<Rightarrow> process_nodes E ns s')"
    by (rule ext) simp
  then show ?case
    using replays_seq [OF replays_step [OF assms, of n] Cons.IH] by simp
qed

lemma replays_walk_and_process:
  assumes "css_blind E"
  shows "replays (walk_and_process E name t)"
proof (cases "case t of
              None \<Rightarrow> Inl (UnboundLocalError,
                           ''local variable '' @ quote @ ''template'' @ quote
                           @ '' referenced before assignment'')
            | Some t \<Rightarrow> walk_nodes E (recursion_limit E) t None")
  case (Inl e)
  then have "walk_and_process E name t
        = (\<lambda>s. (None, if show_errors s \<noteq> 0
                       then stdout_write (''Error parsing template '' @ name @ '': '' @ snd e
                                          @ [newline]) s
                       else s))"
    by (intro ext) (simp add: walk_and_process_def)
  then show ?thesis by (simp only: replays_note)
next
  case (Inr nodes)
  then have "walk_and_process E name t = process_nodes E nodes"
    by (intro ext) (simp add: walk_and_process_def)
  then show ?thesis by (simp add: replays_process_nodes [OF assms])
qed

lemma replays_after_note:
  assumes "replays m"
  shows "replays (\<lambda>s. m (if show_errors s \<noteq> 0 then stdout_write msg s else s))"
proof -
  have "(\<lambda>s. case (None, if show_errors s \<noteq> 0 then stdout_write msg s else s) of
              (Some e, s') \<Rightarrow> (Some e, s') | (None, s') \<Rightarrow> m s')
        = (\<lambda>s. m (if show_errors s \<noteq> 0 then stdout_write msg s else s))"
    by (rule ext) (simp only: prod.case option.case)
  with replays_seq [OF replays_note [of msg] assms] show ?thesis by (simp only:)
qed

lemma replays_parse_template:
  assumes "css_blind E"
  shows "replays (parse_template E name)"
proof (cases "parse E name")
  case (Inr template)
  then have "parse_template E name = walk_and_process E name (Some template)"
    by (intro ext) (simp add: parse_template_def)
  then show ?thesis by (simp add: replays_walk_and_process [OF assms])
next
  case (Inl e)
  consider "fst e = IOError" | "fst e \<noteq> IOError" "fst e = TemplateSyntaxError"
    | "fst e \<noteq> IOError" "fst e \<noteq> TemplateSyntaxError" "fst e = TemplateDoesNotExist"
    | "fst e \<noteq> IOError" "fst e \<noteq> TemplateSyntaxError" "fst e \<noteq> TemplateDoesNotExist"
      "fst e = UnicodeDecodeError"
    | "fst e \<noteq> IOError" "fst e \<noteq> TemplateSyntaxError" "fst e \<noteq> TemplateDoesNotExist"
      "fst e \<noteq> UnicodeDecodeError"
    by blast
  then show ?thesis
  proof cases
    case 1
    with Inl have "parse_template E name
        = (\<lambda>s. (None, if show_errors s \<noteq> 0
                       then stdout_write (''Unreadable template at: '' @ name @ [newline]) s
                       else s))"
      by (intro ext) (simp add: parse_template_def)
    then show ?thesis by (simp only: replays_note)
  next
    case 2
    with Inl have "parse_template E name
        = (\<lambda>s. (None, if show_errors s \<noteq> 0
                       then stdout_write (''Invalid template '' @ name @ '': '' @ snd e
                                          @ [newline]) s
                       else s))"
      by (intro ext) (simp add: parse_template_def)
    then show ?thesis by (simp only: replays_note)
  next
    case 3
    with Inl have "parse_template E name
        = (\<lambda>s. (None, if show_errors s \<noteq> 0
                       then stdout_write (''Non-existent template at: '' @ name @ [newline]) s
                       else s))"
      by (intro ext) (simp add: parse_template_def)
    then show ?thesis by (simp only: replays_note)
  next
    case 4
    with Inl have "parse_template E name
        = (\<lambda>s. walk_and_process E name None
                  (if show_errors s \<noteq> 0
                   then stdout_write (''UnicodeDecodeError while trying to read template ''
                                      @ name @ [newline]) s
                   else s))"
      by (intro ext) (simp add: parse_template_def)
    then show ?thesis
      by (simp only: replays_after_note [OF replays_walk_and_process [OF assms]])
  next
    case 5
    with Inl have "parse_template E name = (\<lambda>s. (Some e, s))"
      by (intro ext) (simp add: parse_template_def)
    then show ?thesis by (simp add: replays_return)
  qed
qed

lemma replays_parse_templates:
  assumes "css_blind E"
  shows "replays (parse_templates E ts)"
proof (induction ts)
  case Nil
  have "parse_templates E [] = (\<lambda>s. (None, s))" by (rule ext) simp
  then show ?case by (simp add: replays_return)
next
  case (Cons name ts)
  have "parse_templates E (name # ts)
          = (\<lambda>s. case parse_template E name s of
                   (Some e, s') \<Rightarrow> (Some e, s')
                 | (None, s') \<Rightarrow> parse_templates E ts s')"
    by (rule ext) simp
  then show ?case
    using replays_seq [OF replays_parse_template [OF assms, of name] Cons.IH] by simp
qed

lemma map_add_absorb:
  assumes "f ++ W' = f ++ W"
  shows "(f ++ W) ++ W' = f ++ W'"
proof
  fix p
  from assms have "(f ++ W') p = (f ++ W) p" by simp
  then show "((f ++ W) ++ W') p = (f ++ W') p"
    by (auto simp: map_add_def split: option.splits)
qed

lemma same_order_idempotent:
  assumes "css_blind E"
      and "\<not> opt_delete_files opts"
      and "handle E opts disk = (None, s1)"
  shows "handle E opts (files s1) = (None, s1)"
proof -
  let ?s0 = "init_state opts disk"
  from assms(3) obtain ts t1 where
    ts: "find_templates E = Inr ts"
    and run: "parse_templates E (set_iteration E ts) ?s0 = (None, t1)"
    and s1: "s1 = stdout_write (summary_line (delete_files t1) (length (compiled_files t1))) t1"
    by (auto simp: handle_def Let_def split: sum.splits prod.splits option.splits)
  have nd: "\<not> delete_files ?s0" using assms(2) by (simp add: init_state_def)
  have f0: "files ?s0 = disk" by (simp add: init_state_def)
  note rp = replays_parse_templates [OF assms(1), of "set_iteration E ts"]
  from replaysD [OF rp nd off_css_eq_refl] run f0 obtain W where
    W: "css_only W" "files t1 = disk ++ W"
    by (metis snd_conv)
  have "off_css_eq (files ?s0) (files t1)"
    using W off_css_eq_css_only [of W disk] f0 by simp
  from replaysD [OF rp nd this] run f0 obtain W' where
    W': "files t1 = disk ++ W'"
        "parse_templates E (set_iteration E ts) (?s0\<lparr>files := files t1\<rparr>)
           = (None, t1\<lparr>files := files t1 ++ W'\<rparr>)"
    by (metis fst_conv snd_conv)
  have "files t1 ++ W' = files t1"
    using map_add_absorb [of disk W' W] W(2) W'(1) by simp
  with W'(2) have again:
    "parse_templates E (set_iteration E ts) (?s0\<lparr>files := files t1\<rparr>) = (None, t1)"
    by simp
  have "init_state opts (files s1) = ?s0\<lparr>files := files t1\<rparr>"
    using s1 by (simp add: init_state_def stdout_write_def)
  with again ts s1 show ?thesis by (simp add: handle_def)
qed


text \<open>Nothing but the iteration order depends on the hashes of the process.\<close>

lemma rehash_output_style: "output_style (E\<lparr>hash_key := h\<rparr>) = output_style E"
  by (simp add: output_style_def)

lemma rehash_compile: "compile (E\<lparr>hash_key := h\<rparr>) n s = compile E n s"
  by (simp add: compile_def rehash_output_style Let_def
           split: node.splits option.splits sum.splits)

lemma rehash_delete_file: "delete_file (E\<lparr>hash_key := h\<rparr>) n s = delete_file E n s"
  by (simp add: delete_file_def Let_def split: node.splits option.splits)

lemma rehash_process_nodes: "process_nodes (E\<lparr>hash_key := h\<rparr>) ns s = process_nodes E ns s"
  by (induction ns arbitrary: s)
     (simp_all add: rehash_compile rehash_delete_file split: prod.splits option.splits)

lemma rehash_walk_nodes: "walk_nodes (E\<lparr>hash_key := h\<rparr>) d n orig = walk_nodes E d n orig"
  by (induction d arbitrary: n orig)
     (simp_all add: Let_def split: sum.splits cong: node.case_cong)

lemma rehash_walk_and_process:
  "walk_and_process (E\<lparr>hash_key := h\<rparr>) name t s = walk_and_process E name t s"
  by (simp add: walk_and_process_def rehash_walk_nodes rehash_process_nodes
           split: option.splits sum.splits)

lemma rehash_parse_template:
  "parse_template (E\<lparr>hash_key := h\<rparr>) name s = parse_template E name s"
  by (simp add: parse_template_def rehash_walk_and_process split: sum.splits)

lemma rehash_parse_templates:
  "parse_templates (E\<lparr>hash_key := h\<rparr>) ts s = parse_templates E ts s"
  by (induction ts arbitrary: s)
     (simp_all add: rehash_parse_template split: prod.splits option.splits)

lemma rehash_walk_path: "walk_path (E\<lparr>hash_key := h\<rparr>) path = walk_path E path"
  by (simp add: walk_path_def)

lemma rehash_get_loaders: "get_loaders (E\<lparr>hash_key := h\<rparr>) = get_loaders E"
  by (simp add: get_loaders_def)

lemma rehash_find_templates: "find_templates (E\<lparr>hash_key := h\<rparr>) = find_templates E"
  by (simp add: find_templates_def rehash_walk_path rehash_get_loaders Let_def
           split: sum.splits)

text \<open>
  C7, as amended: compiling twice is idempotent when the compiler does not read the
  \<^verbatim>\<open>.css\<close> files on disk and the second run iterates the templates in the order of
  the first. Then, a compile-mode run on some disk having returned, a second run on
  the disk the first one left, in a process with any hash key that gives that order,
  returns in the very same final state: every artifact holds the same content as after
  the first run, and the same lines, the summary with its count among them, are
  printed.
\<close>

theorem compile_twice_is_idempotent:
  assumes "css_blind E"
      and "\<not> opt_delete_files opts"
      and "handle E opts disk = (None, s1)"
      and "find_templates E = Inr templates"
      and "sort_key h templates = sort_key (hash_key E) templates"
  shows "handle (E\<lparr>hash_key := h\<rparr>) opts (files s1) = (None, s1)"
proof -
  have "handle (E\<lparr>hash_key := h\<rparr>) opts (files s1) = handle E opts (files s1)"
    using assms(4,5)
    by (simp add: handle_def rehash_find_templates rehash_parse_templates set_iteration_def)
  with same_order_idempotent [OF assms(1,2,3)] show ?thesis by simp
qed

lemma site_css_blind: "css_blind site"
  by (simp add: css_blind_def site_def)

lemma site_same_order:
  "sort_key length [''/t/page.html'', ''/t/notes.txt'', ''/t/sub/base.html'']
     = sort_key (hash_key site) [''/t/page.html'', ''/t/notes.txt'', ''/t/sub/base.html'']"
  by (simp add: site_def)

theorem compile_twice_is_idempotent_witness:
  "css_blind site
   \<and> handle (site\<lparr>hash_key := length\<rparr>) compile_opts
         (files (snd (handle site compile_opts empty_disk)))
       = (None, snd (handle site compile_opts empty_disk))"
  using compile_twice_is_idempotent
          [OF site_css_blind _ site_compile_run_pair site_templates site_same_order]
        site_css_blind
  by (simp add: compile_opts_def)

text \<open>
  C7 as stated fails, in two ways. The templates are a set, iterated in the order of
  the process's hashes: the two templates of the twin site both write \<^verbatim>\<open>x.css\<close>, and
  a second run that takes them in the other order leaves another content there than
  the first. And a compiler may read what the first run wrote: on the site whose
  compiler takes in \<^verbatim>\<open>theme.css\<close>, the second run writes another \<^verbatim>\<open>main.css\<close> than
  the first, in the same order.
\<close>

theorem second_compile_run_differs:
  "fst (handle twin_site compile_opts empty_disk) = None
   \<and> files (snd (handle twin_site compile_opts empty_disk)) ''/static/styles/x.css'' = Some [121]
   \<and> find_templates rehashed_twin_site = find_templates twin_site
   \<and> fst (handle rehashed_twin_site compile_opts
              (files (snd (handle twin_site compile_opts empty_disk)))) = None
   \<and> files (snd (handle rehashed_twin_site compile_opts
                     (files (snd (handle twin_site compile_opts empty_disk)))))
        ''/static/styles/x.css'' = Some [120]
   \<and> fst (handle stale_site compile_opts empty_disk) = None
   \<and> files (snd (handle stale_site compile_opts empty_disk)) ''/static/styles/main.css''
       = Some [97]
   \<and> fst (handle stale_site compile_opts
              (files (snd (handle stale_site compile_opts empty_disk)))) = None
   \<and> files (snd (handle stale_site compile_opts
                     (files (snd (handle stale_site compile_opts empty_disk)))))
        ''/static/styles/main.css'' = Some [97, 98]"
  by code_simp

end
